theory Spec2Isabelle
  imports Complex_Main "HOL-Library.Word"
begin

section \<open>The note recognizer of \<^verbatim>\<open>note_recognizer.py\<close>\<close>

text \<open>
  The class \<^verbatim>\<open>NoteRecognizer\<close> reads blocks of signed 16-bit samples, estimates
  the dominant frequency of each block (\<^verbatim>\<open>get_frequency\<close>), smooths the estimates
  over a deque of five readings, maps the smoothed frequency to a note name
  (\<^verbatim>\<open>frequency_to_note\<close>) and tracks the boundaries of notes with the fields
  \<^verbatim>\<open>current_note\<close>, \<^verbatim>\<open>note_start_time\<close> and \<^verbatim>\<open>last_detection_time\<close>.

  Python floats (times returned by \<^verbatim>\<open>time.time()\<close>, frequencies) are modelled as
  real numbers, so differences of times and comparisons with the thresholds are exact;
  the samples are 16-bit words, note names are strings.  The body of the
  \<^verbatim>\<open>while self.running\<close> loop is split along the comments of the source into the
  stabilizer (lines 134-146) and the note tracker (lines 151-189).
\<close>

subsection \<open>Fields set up by \<^verbatim>\<open>__init__\<close>\<close>

record recognizer =
  current_note :: "string option"
  last_note_time :: real
  note_start_time :: real
  last_detection_time :: real
  last_dropout_time :: real
  freq_buffer :: "real option list"

definition init :: recognizer where
  "init = \<lparr>current_note = None, last_note_time = 0, note_start_time = 0,
            last_detection_time = 0, last_dropout_time = 0, freq_buffer = []\<rparr>"

definition SAMPLE_RATE :: real where
  "SAMPLE_RATE = 44100"

definition CHUNK_SIZE :: nat where
  "CHUNK_SIZE = 4096"

definition MIN_NOTE_DURATION :: real where
  "MIN_NOTE_DURATION = 0.05"

definition SILENCE_THRESHOLD :: real where
  "SILENCE_THRESHOLD = 0.1"

definition DROPOUT_TOLERANCE :: real where
  "DROPOUT_TOLERANCE = 0.05"

text \<open>The dictionary \<^verbatim>\<open>NOTE_RANGES\<close>, in insertion order (the order in which
  \<^verbatim>\<open>frequency_to_note\<close> iterates over it).\<close>

definition NOTE_RANGES :: "(string \<times> real \<times> real) list" where
  "NOTE_RANGES =
     [(''C'', 500, 790),
      (''D'', 900, 1000),
      (''E'', 1001, 1200),
      (''F'', 1210, 1300),
      (''G'', 1310, 3000),
      (''A'', 800, 881)]"

subsection \<open>\<^verbatim>\<open>get_frequency\<close>\<close>

text \<open>
  The model starts from \<open>audio_array\<close>, the array of signed 16-bit samples that
  line 68 decodes from the bytes read.  \<^verbatim>\<open>np.abs\<close> on an \<^verbatim>\<open>int16\<close> array
  computes in \<^verbatim>\<open>int16\<close>: negation wraps around, so the absolute value of
  \<open>-32768\<close> is \<open>-32768\<close>.  \<^verbatim>\<open>mean\<close> then accumulates in double precision;
  sums of 16-bit samples are exact there, and the mean is taken as a real number.
\<close>

datatype error = IOError | ValueError

definition np_abs :: "16 word \<Rightarrow> 16 word" where
  "np_abs x = (if sint x < 0 then - x else x)"

definition volume_of :: "16 word list \<Rightarrow> real" where
  "volume_of audio_array =
     real_of_int (sum_list (map (\<lambda>x. sint (np_abs x)) audio_array))
       / real (length audio_array)"

text \<open>
  \<^verbatim>\<open>np.fft.rfft\<close> of \<open>n\<close> real samples: the first \<open>n div 2 + 1\<close> coefficients of
  the discrete Fourier transform, here with exact complex arithmetic.
\<close>

definition rfft :: "16 word list \<Rightarrow> complex list" where
  "rfft audio_array =
     (let n = length audio_array in
      map (\<lambda>k. \<Sum>m<n. of_int (sint (audio_array ! m))
                   * cis (- (2 * pi * real m * real k / real n)))
          [0..<n div 2 + 1])"

text \<open>\<^verbatim>\<open>np.argmax\<close>: the index of the first occurrence of the largest entry.\<close>

primrec argmax_scan :: "nat \<Rightarrow> real \<Rightarrow> nat \<Rightarrow> real list \<Rightarrow> nat" where
  "argmax_scan best best_val i [] = best"
| "argmax_scan best best_val i (x # xs) =
     (if x > best_val then argmax_scan i x (Suc i) xs
      else argmax_scan best best_val (Suc i) xs)"

definition np_argmax :: "real list \<Rightarrow> nat" where
  "np_argmax xs = (case xs of [] \<Rightarrow> 0 | x # rest \<Rightarrow> argmax_scan 0 x 1 rest)"

text \<open>
  On an empty array \<^verbatim>\<open>mean\<close> yields NaN, the comparison with 200 is false and
  \<^verbatim>\<open>np.fft.rfft\<close> raises \<^verbatim>\<open>ValueError\<close>.
\<close>

definition get_frequency :: "16 word list \<Rightarrow> error + real option" where
  "get_frequency audio_array =
     (if audio_array = [] then Inl ValueError
      else
        (let volume = volume_of audio_array in
         if volume < 200 then Inr None
         else
           (let fft = rfft audio_array;
                fft_magnitude = map cmod fft;
                peak_index = np_argmax fft_magnitude;
                frequency = real peak_index * SAMPLE_RATE / real (length audio_array)
            in if frequency < 500 \<or> frequency > 3000 then Inr None
               else Inr (Some frequency))))"

subsection \<open>\<^verbatim>\<open>frequency_to_note\<close>\<close>

fun scan_ranges :: "(string \<times> real \<times> real) list \<Rightarrow> real \<Rightarrow> string option" where
  "scan_ranges [] frequency = None"
| "scan_ranges ((note, low, high) # rest) frequency =
     (if low \<le> frequency \<and> frequency \<le> high then Some note
      else scan_ranges rest frequency)"

definition frequency_to_note :: "real option \<Rightarrow> string option" where
  "frequency_to_note frequency =
     (case frequency of
        None \<Rightarrow> None
      | Some f \<Rightarrow> scan_ranges NOTE_RANGES f)"

subsection \<open>Observable effects of completing a note\<close>

text \<open>
  When a note is completed the loop prints the note with its duration and then calls
  \<^verbatim>\<open>self.callback\<close> (lines 165-167 and again lines 185-187).  An event records
  either the values printed (the note and the local \<^verbatim>\<open>note_duration\<close>) or the
  positional arguments handed to the callback.  The "Note detected" prints of lines 160
  and 171 change nothing and are left out.  The callback is taken to return normally.
\<close>

datatype py_val = PyStr string | PyFloat real

datatype event = Note_played string real | Callback "py_val list"

definition finish_note :: "string \<Rightarrow> real \<Rightarrow> event list" where
  "finish_note note note_duration =
     (if note_duration \<ge> MIN_NOTE_DURATION
      then [Note_played note note_duration, Callback [PyStr note]]
      else [])"

subsection \<open>The note tracker: lines 151-189 of \<^verbatim>\<open>process_audio\<close>\<close>

text \<open>Python's truth value of \<^verbatim>\<open>detected_note\<close>: \<^verbatim>\<open>None\<close> and the empty string
  are false.\<close>

definition truthy :: "string option \<Rightarrow> bool" where
  "truthy detected_note =
     (case detected_note of None \<Rightarrow> False | Some n \<Rightarrow> n \<noteq> [])"

text \<open>
  \<^verbatim>\<open>time.time()\<close> is called at line 151 and, when no note is detected while one is
  active, a second time at line 176.  The two readings are the arguments
  \<open>current_time\<close> and \<open>current_time2\<close>.
\<close>

definition process_audio_detect ::
  "recognizer \<Rightarrow> string option \<Rightarrow> real \<Rightarrow> real \<Rightarrow> recognizer \<times> event list" where
  "process_audio_detect self detected_note current_time current_time2 =
     (if truthy detected_note then
        (let self1 = self\<lparr>last_detection_time := current_time\<rparr> in
         case current_note self1 of
           None \<Rightarrow>
             (self1\<lparr>current_note := detected_note, note_start_time := current_time\<rparr>, [])
         | Some cur \<Rightarrow>
             if detected_note \<noteq> Some cur then
               (let note_duration = current_time - note_start_time self1
                in (self1\<lparr>current_note := detected_note, note_start_time := current_time\<rparr>,
                    finish_note cur note_duration))
             else (self1, []))
      else
        (case current_note self of
           None \<Rightarrow> (self, [])
         | Some cur \<Rightarrow>
             (let silence_duration = current_time2 - last_detection_time self in
              if silence_duration \<ge> DROPOUT_TOLERANCE then
                if silence_duration \<ge> SILENCE_THRESHOLD then
                  (let note_duration = last_detection_time self - note_start_time self
                   in (self\<lparr>current_note := None\<rparr>, finish_note cur note_duration))
                else (self, [])
              else (self, []))))"

subsection \<open>The stabilizer: lines 134-146 of \<^verbatim>\<open>process_audio\<close>\<close>

text \<open>\<^verbatim>\<open>deque(maxlen=5).append\<close>: append on the right, then drop the leftmost entry
  when the deque has grown beyond its bound.\<close>

definition deque_append :: "nat \<Rightarrow> 'a list \<Rightarrow> 'a \<Rightarrow> 'a list" where
  "deque_append maxlen buf x =
     (let buf1 = buf @ [x] in if length buf1 > maxlen then tl buf1 else buf1)"

text \<open>\<^verbatim>\<open>np.median\<close> of a non-empty list: the middle entry of the sorted list, or the
  mean of the two middle entries when the length is even.\<close>

definition np_median :: "real list \<Rightarrow> real" where
  "np_median xs =
     (let s = sort xs; n = length xs in
      if n mod 2 = 1 then s ! (n div 2)
      else (s ! (n div 2 - 1) + s ! (n div 2)) / 2)"

definition process_audio_stabilize ::
  "recognizer \<Rightarrow> real option \<Rightarrow> recognizer \<times> real option" where
  "process_audio_stabilize self frequency =
     (let self1 = self\<lparr>freq_buffer := deque_append 5 (freq_buffer self) frequency\<rparr> in
      case frequency of
        Some f \<Rightarrow>
          (let non_none = List.map_filter (\<lambda>x. x) (freq_buffer self1) in
           if length non_none \<ge> 2 then (self1, Some (np_median non_none))
           else (self1, Some f))
      | None \<Rightarrow> (self1, None))"

subsection \<open>One iteration of the loop of \<^verbatim>\<open>process_audio\<close>\<close>

text \<open>
  \<open>read\<close> is the outcome of \<^verbatim>\<open>self.stream.read\<close>, decoded: an exception or the
  sample array.  Any exception inside the \<^verbatim>\<open>try\<close> block is caught by the handler
  of line 191, which prints and sleeps; the fields keep the values they had when it was
  raised.
\<close>

definition process_audio_step ::
  "recognizer \<Rightarrow> error + 16 word list \<Rightarrow> real \<Rightarrow> real \<Rightarrow> recognizer \<times> event list" where
  "process_audio_step self read current_time current_time2 =
     (case read of
        Inl e \<Rightarrow> (self, [])
      | Inr audio_array \<Rightarrow>
          (case get_frequency audio_array of
             Inl e \<Rightarrow> (self, [])
           | Inr frequency \<Rightarrow>
               (case process_audio_stabilize self frequency of
                  (self1, stable_frequency) \<Rightarrow>
                    process_audio_detect self1 (frequency_to_note stable_frequency)
                      current_time current_time2)))"

text \<open>A tick of the tracker: the classification and the two clock readings.\<close>

type_synonym tick = "string option \<times> real \<times> real"

fun run_detect :: "recognizer \<Rightarrow> tick list \<Rightarrow> recognizer \<times> event list" where
  "run_detect self [] = (self, [])"
| "run_detect self ((detected_note, current_time, current_time2) # ticks) =
     (case process_audio_detect self detected_note current_time current_time2 of
        (self1, out1) \<Rightarrow>
          (case run_detect self1 ticks of (self2, out2) \<Rightarrow> (self2, out1 @ out2)))"

text \<open>The stabilizer alone, fed a sequence of frequency estimates.\<close>

fun run_stabilize :: "recognizer \<Rightarrow> real option list \<Rightarrow> recognizer \<times> real option list" where
  "run_stabilize self [] = (self, [])"
| "run_stabilize self (frequency # rest) =
     (case process_audio_stabilize self frequency of
        (self1, stable_frequency) \<Rightarrow>
          (case run_stabilize self1 rest of
             (self2, outs) \<Rightarrow> (self2, stable_frequency # outs)))"

subsection \<open>Notions used in the statements\<close>

text \<open>The last five entries of a sequence (all of them when there are fewer).\<close>

definition last_five :: "'a list \<Rightarrow> 'a list" where
  "last_five es = drop (length es - 5) es"

text \<open>
  The median in the words of the specification, stated by counting and without sorting:
  \<open>v\<close> is the \<open>k\<close>-th smallest entry (from 0) when it occurs in the list, at most
  \<open>k\<close> entries are smaller and more than \<open>k\<close> are not larger.  The median of an odd
  number of entries is the middle one, that of an even number the mean of the two
  middle ones.
\<close>

definition kth_smallest :: "real list \<Rightarrow> nat \<Rightarrow> real \<Rightarrow> bool" where
  "kth_smallest xs k v \<longleftrightarrow>
     v \<in> set xs \<and> length (filter (\<lambda>x. x < v) xs) \<le> k \<and> k < length (filter (\<lambda>x. x \<le> v) xs)"

definition is_median :: "real list \<Rightarrow> real \<Rightarrow> bool" where
  "is_median xs m \<longleftrightarrow>
     (if odd (length xs) then kth_smallest xs (length xs div 2) m
      else (\<exists>a \<in> set xs. \<exists>b \<in> set xs.
              kth_smallest xs (length xs div 2 - 1) a
              \<and> kth_smallest xs (length xs div 2) b
              \<and> m = (a + b) / 2))"

text \<open>
  The volume measure in the words of the specification: the mean of the absolute values
  of the samples, taken as integers.
\<close>

definition mean_abs_magnitude :: "16 word list \<Rightarrow> real" where
  "mean_abs_magnitude audio_array =
     real_of_int (sum_list (map (\<lambda>x. \<bar>sint x\<bar>) audio_array)) / real (length audio_array)"

text \<open>
  The frequency estimator in the words of the specification, to be compared with
  \<open>get_frequency\<close>: absent below the volume floor of 200, otherwise the frequency
  of the peak of the magnitude spectrum unless that lies outside 500 to 3000 Hz.
\<close>

definition estimator_spec :: "16 word list \<Rightarrow> real option" where
  "estimator_spec block =
     (if mean_abs_magnitude block < 200 then None
      else
        (let peak_index = np_argmax (map cmod (rfft block));
             frequency = real peak_index * SAMPLE_RATE / real (length block)
         in if frequency < 500 \<or> frequency > 3000 then None else Some frequency))"

text \<open>The discrete Fourier transform of a real sequence \<open>x\<close> of length \<open>n\<close>, at bin
  \<open>k\<close>: the entries of \<open>rfft\<close>.\<close>

definition dft :: "(nat \<Rightarrow> real) \<Rightarrow> nat \<Rightarrow> nat \<Rightarrow> complex" where
  "dft x n k = (\<Sum>m<n. of_real (x m) * cis (- (2 * pi * real m * real k / real n)))"

text \<open>A square wave of period \<open>2 * h\<close>: \<open>a\<close> on the first half of each period,
  \<open>b\<close> on the second.\<close>

definition square_wave :: "real \<Rightarrow> real \<Rightarrow> nat \<Rightarrow> nat \<Rightarrow> real" where
  "square_wave a b h m = (if m mod (2 * h) < h then a else b)"

text \<open>
  A block of \<open>CHUNK_SIZE\<close> samples as a clipping microphone delivers it: a full-scale
  square wave with a period of 16 samples (2756.25 Hz at 44100 samples per second),
  eight samples at \<open>-32768\<close> followed by eight at \<open>32767\<close>.
\<close>

definition clipped_block :: "16 word list" where
  "clipped_block = map (\<lambda>m. if m mod 16 < 8 then - 32768 else 32767) [0..<4096]"

text \<open>A recognizer in the middle of a note: \<open>A\<close> started at time 0 and was last
  detected at 60 ms.\<close>

definition active_A :: recognizer where
  "active_A = init\<lparr>current_note := Some ''A'', last_detection_time := 0.06\<rparr>"

text \<open>The scripted scenario of the specification, times in seconds; both clock readings
  of a tick are the scripted time.\<close>

definition scripted_ticks :: "tick list" where
  "scripted_ticks =
     [(Some ''A'', 0, 0), (Some ''A'', 0.06, 0.06), (None, 0.11, 0.11),
      (Some ''B'', 0.2, 0.2), (Some ''B'', 0.26, 0.26)]"

section \<open>Properties\<close>

subsection \<open>Auxiliary facts\<close>

lemmas detect_eval =
  process_audio_detect_def finish_note_def Let_def truthy_def init_def
  MIN_NOTE_DURATION_def SILENCE_THRESHOLD_def DROPOUT_TOLERANCE_def

lemma gap_ticks:
  assumes "current_note self = Some s"
    and "\<forall>(d, t1, t2) \<in> set gap.
           \<not> truthy d \<and> t2 - last_detection_time self < SILENCE_THRESHOLD"
  shows "run_detect self (gap @ rest) = run_detect self rest"
  using assms
proof (induction gap)
  case Nil
  then show ?case by simp
next
  case (Cons g gap)
  obtain d t1 t2 where g: "g = (d, t1, t2)" by (cases g)
  with Cons.prems have "process_audio_detect self d t1 t2 = (self, [])"
    by (simp add: process_audio_detect_def Let_def)
  with Cons g show ?case by simp
qed

lemma deque_append_last_five:
  assumes "length buf \<le> 5"
  shows "deque_append 5 buf x = last_five (buf @ [x])"
proof (cases "length buf = 5")
  case True
  then have "buf \<noteq> []" by auto
  then have "tl (buf @ [x]) = drop 1 (buf @ [x])" by (cases buf) simp_all
  with True show ?thesis
    by (simp add: deque_append_def last_five_def Let_def)
next
  case False
  with assms show ?thesis
    by (simp add: deque_append_def last_five_def Let_def)
qed

lemma last_five_length: "length (last_five es) \<le> 5"
  by (simp add: last_five_def)

lemma last_five_snoc: "last_five (last_five es @ [x]) = last_five (es @ [x])"
proof (cases "length es \<le> 5")
  case True
  then show ?thesis by (simp add: last_five_def)
next
  case False
  then have "length es - 5 + 1 = length es - 4" by simp
  with False show ?thesis by (simp add: last_five_def)
qed

lemma stabilize_buffer:
  "freq_buffer (fst (process_audio_stabilize self e)) = deque_append 5 (freq_buffer self) e"
  by (simp add: process_audio_stabilize_def Let_def split: option.splits)

lemma stabilize_out:
  "snd (process_audio_stabilize self e) =
     (case e of
        None \<Rightarrow> None
      | Some f \<Rightarrow>
          (let present = List.map_filter (\<lambda>x. x) (deque_append 5 (freq_buffer self) e)
           in if length present \<ge> 2 then Some (np_median present) else Some f))"
  by (simp add: process_audio_stabilize_def Let_def split: option.splits)

lemma run_stabilize_snoc:
  "run_stabilize self (es @ [e]) =
     (let r = run_stabilize self es; p = process_audio_stabilize (fst r) e
      in (fst p, snd r @ [snd p]))"
  by (induction es arbitrary: self) (simp_all add: Let_def split: prod.splits)

lemma window_after_append:
  assumes "freq_buffer self1 = last_five (b @ es)"
  shows "deque_append 5 (freq_buffer self1) e = last_five (b @ es @ [e])"
proof -
  have "length (freq_buffer self1) \<le> 5"
    using assms by (simp add: last_five_length)
  then have "deque_append 5 (freq_buffer self1) e = last_five (freq_buffer self1 @ [e])"
    by (rule deque_append_last_five)
  also have "\<dots> = last_five ((b @ es) @ [e])"
    by (simp only: assms last_five_snoc)
  finally show ?thesis by simp
qed

lemma buffer_run:
  "length (freq_buffer self) \<le> 5 \<Longrightarrow>
   freq_buffer (fst (run_stabilize self es)) = last_five (freq_buffer self @ es)"
proof (induction es rule: rev_induct)
  case Nil
  then show ?case by (simp add: last_five_def)
next
  case (snoc e es)
  then have "freq_buffer (fst (run_stabilize self es)) = last_five (freq_buffer self @ es)"
    by simp
  then have "deque_append 5 (freq_buffer (fst (run_stabilize self es))) e
               = last_five (freq_buffer self @ es @ [e])"
    by (rule window_after_append)
  then show ?case
    by (simp add: run_stabilize_snoc Let_def stabilize_buffer)
qed

subsection \<open>\<^verbatim>\<open>np.median\<close> is the median\<close>

text \<open>The entry at position \<open>k\<close> of the sorted list is the \<open>k\<close>-th smallest, the
  \<open>k\<close>-th smallest is unique, and so \<open>np_median\<close> yields the one median of a
  non-empty list.\<close>

lemma length_filter_mono:
  assumes "\<And>x. P x \<Longrightarrow> Q x"
  shows "length (filter P xs) \<le> length (filter Q xs)"
proof -
  have "filter P xs = filter P (filter Q xs)"
    using assms by (induction xs) auto
  then show ?thesis by (metis length_filter_le)
qed

lemma kth_smallest_unique:
  assumes "kth_smallest xs k v" and "kth_smallest xs k w"
  shows "v = w"
proof -
  have ord: False if "kth_smallest xs k a" "kth_smallest xs k b" "a < b" for a b :: real
  proof -
    have "length (filter (\<lambda>x. x \<le> a) xs) \<le> length (filter (\<lambda>x. x < b) xs)"
      using that(3) by (intro length_filter_mono) simp
    with that(1,2) show False by (simp add: kth_smallest_def)
  qed
  show ?thesis
  proof (rule ccontr)
    assume "v \<noteq> w"
    then consider "v < w" | "w < v" by linarith
    then show False using ord assms by cases blast+
  qed
qed

lemma sorted_counts:
  assumes "sorted s" and "k < length s"
  shows "length (filter (\<lambda>x. x < s ! k) s) \<le> k"
    and "k < length (filter (\<lambda>x. x \<le> s ! k) s)"
proof -
  have s: "s = take k s @ drop k s" by simp
  have "filter (\<lambda>x. x < s ! k) (drop k s) = []"
  proof -
    have "\<forall>x \<in> set (drop k s). \<not> x < s ! k"
    proof
      fix x assume "x \<in> set (drop k s)"
      then obtain i where "i < length (drop k s)" "drop k s ! i = x"
        by (auto simp: in_set_conv_nth)
      then have "x = s ! (k + i)" "k + i < length s" by auto
      with assms(1) have "s ! k \<le> x" by (simp add: sorted_nth_mono)
      then show "\<not> x < s ! k" by simp
    qed
    then show ?thesis by (simp add: filter_empty_conv)
  qed
  then have "filter (\<lambda>x. x < s ! k) s = filter (\<lambda>x. x < s ! k) (take k s)"
    by (subst s) (simp only: filter_append, simp)
  then have "length (filter (\<lambda>x. x < s ! k) s) \<le> length (take k s)"
    by (metis length_filter_le)
  then show "length (filter (\<lambda>x. x < s ! k) s) \<le> k" by simp
  have "\<forall>x \<in> set (take (Suc k) s). x \<le> s ! k"
  proof
    fix x assume "x \<in> set (take (Suc k) s)"
    then obtain i where "i < length (take (Suc k) s)" "take (Suc k) s ! i = x"
      by (auto simp: in_set_conv_nth)
    then have "x = s ! i" "i \<le> k" by auto
    with assms show "x \<le> s ! k" by (simp add: sorted_nth_mono)
  qed
  then have "filter (\<lambda>x. x \<le> s ! k) (take (Suc k) s) = take (Suc k) s"
    by simp
  moreover have "s = take (Suc k) s @ drop (Suc k) s" by simp
  ultimately have "length (filter (\<lambda>x. x \<le> s ! k) s) \<ge> length (take (Suc k) s)"
    by (metis filter_append length_append le_add1)
  with assms(2) show "k < length (filter (\<lambda>x. x \<le> s ! k) s)" by simp
qed

lemma kth_smallest_sort:
  assumes "k < length xs"
  shows "kth_smallest xs k (sort xs ! k)"
proof -
  let ?s = "sort xs"
  have k: "k < length ?s" using assms by simp
  have "length (filter P ?s) = length (filter P xs)" for P
    by (simp add: filter_sort)
  moreover have "?s ! k \<in> set xs"
    using k by (metis nth_mem set_sort)
  moreover note sorted_counts [OF sorted_sort k]
  ultimately show ?thesis by (simp add: kth_smallest_def)
qed

lemma np_median_is_median:
  assumes "xs \<noteq> []"
  shows "is_median xs (np_median xs)"
proof (cases "odd (length xs)")
  case True
  then have "length xs mod 2 = 1" by (simp add: odd_iff_mod_2_eq_one)
  moreover have "length xs div 2 < length xs" using assms by simp
  ultimately show ?thesis
    using True by (simp add: is_median_def np_median_def Let_def kth_smallest_sort)
next
  case False
  then have m: "length xs mod 2 \<noteq> 1" by presburger
  have "length xs \<noteq> 0" using assms by simp
  with False have n: "length xs \<ge> 2" by presburger
  then have a: "length xs div 2 - 1 < length xs" and b: "length xs div 2 < length xs" by simp_all
  let ?a = "sort xs ! (length xs div 2 - 1)" and ?b = "sort xs ! (length xs div 2)"
  have "kth_smallest xs (length xs div 2 - 1) ?a" "kth_smallest xs (length xs div 2) ?b"
    using a b by (simp_all add: kth_smallest_sort)
  moreover from this have "?a \<in> set xs" "?b \<in> set xs" by (simp_all add: kth_smallest_def)
  ultimately show ?thesis
    using False m by (auto simp: is_median_def np_median_def Let_def)
qed

lemma is_median_unique:
  assumes "is_median xs m" and "is_median xs m'"
  shows "m = m'"
proof (cases "odd (length xs)")
  case True
  with assms show ?thesis
    by (auto simp: is_median_def dest: kth_smallest_unique)
next
  case False
  with assms obtain a b a' b' where
    "kth_smallest xs (length xs div 2 - 1) a" "kth_smallest xs (length xs div 2) b"
    "m = (a + b) / 2"
    "kth_smallest xs (length xs div 2 - 1) a'" "kth_smallest xs (length xs div 2) b'"
    "m' = (a' + b') / 2"
    by (auto simp: is_median_def)
  moreover from this have "a = a'" "b = b'"
    by (auto dest: kth_smallest_unique)
  ultimately show ?thesis by simp
qed

subsection \<open>The discrete Fourier transform: energy and symmetry\<close>

text \<open>The squared magnitudes of all \<open>n\<close> bins add up to \<open>n\<close> times the energy of
  the signal, and bin \<open>n - k\<close> mirrors bin \<open>k\<close>.  Hence a bin \<open>p\<close> below \<open>n / 2\<close> that
  holds more than a third of the total bounds every other bin of the half spectrum.\<close>

lemma cis_eq_one_small:
  assumes "cis (2 * pi * d / real n) = 1" and "\<bar>d\<bar> < real n" and "d \<in> \<int>"
  shows "d = 0"
proof -
  from assms(1) have "cos (2 * pi * d / real n) = 1"
    by (metis cis.sel(1) one_complex.sel(1))
  then obtain j :: int where j: "2 * pi * d / real n = real_of_int j * 2 * pi"
    by (auto simp: cos_one_2pi_int)
  have npos: "real n > 0" using assms(2) by linarith
  from j npos have d: "d = real_of_int j * real n"
    by (simp add: field_simps)
  with assms(2) npos have "\<bar>real_of_int j\<bar> * real n < 1 * real n"
    by (simp add: abs_mult)
  then have "\<bar>real_of_int j\<bar> < 1"
    using npos by (simp only: mult_less_cancel_right_pos)
  then have "j = 0" by linarith
  with d show ?thesis by simp
qed

lemma roots_of_unity_sum:
  assumes "m < n" and "m' < n"
  shows "(\<Sum>k<n. cis (2 * pi * real k * (real m' - real m) / real n))
           = (if m = m' then of_nat n else 0)"
proof (cases "m = m'")
  case True
  then show ?thesis by simp
next
  case False
  define z where "z = cis (2 * pi * (real m' - real m) / real n)"
  have npos: "real n > 0" using assms by simp
  have zk: "cis (2 * pi * real k * (real m' - real m) / real n) = z ^ k" for k
    by (simp add: z_def DeMoivre algebra_simps)
  have "z \<noteq> 1"
  proof
    assume "z = 1"
    then have "cis (2 * pi * (real m' - real m) / real n) = 1" by (simp add: z_def)
    moreover have "\<bar>real m' - real m\<bar> < real n" using assms by linarith
    moreover have "real m' - real m \<in> \<int>" by simp
    ultimately have "real m' - real m = 0" by (rule cis_eq_one_small)
    with False show False by simp
  qed
  moreover have "z ^ n = 1"
  proof -
    have "z ^ n = cis (2 * pi * (real m' - real m))"
      using npos by (simp add: z_def DeMoivre)
    also have "\<dots> = 1"
      by (rule cis_multiple_2pi) simp
    finally show ?thesis .
  qed
  ultimately have "(\<Sum>k<n. z ^ k) = 0"
    by (simp add: geometric_sum)
  with False show ?thesis by (simp add: zk)
qed

lemma dft_times_cnj:
  "dft x n k * cnj (dft x n k) =
     (\<Sum>m<n. \<Sum>m'<n. of_real (x m * x m') * cis (2 * pi * real k * (real m' - real m) / real n))"
proof -
  have "cnj (dft x n k) = (\<Sum>m'<n. of_real (x m') * cis (2 * pi * real m' * real k / real n))"
    by (simp add: dft_def cis_cnj)
  then have "dft x n k * cnj (dft x n k) =
      (\<Sum>m<n. \<Sum>m'<n. (of_real (x m) * cis (- (2 * pi * real m * real k / real n)))
                        * (of_real (x m') * cis (2 * pi * real m' * real k / real n)))"
    by (simp add: dft_def sum_product)
  also have "\<dots> = (\<Sum>m<n. \<Sum>m'<n. of_real (x m * x m')
                        * cis (2 * pi * real k * (real m' - real m) / real n))"
  proof (intro sum.cong refl)
    fix m m'
    have "cis (- (2 * pi * real m * real k / real n)) * cis (2 * pi * real m' * real k / real n)
            = cis (2 * pi * real k * (real m' - real m) / real n)"
      by (simp add: cis_mult algebra_simps diff_divide_distrib)
    then show "of_real (x m) * cis (- (2 * pi * real m * real k / real n))
                 * (of_real (x m') * cis (2 * pi * real m' * real k / real n))
             = of_real (x m * x m') * cis (2 * pi * real k * (real m' - real m) / real n)"
      by (simp add: mult.assoc mult.left_commute)
  qed
  finally show ?thesis .
qed

lemma parseval:
  "(\<Sum>k<n. (cmod (dft x n k))\<^sup>2) = real n * (\<Sum>m<n. (x m)\<^sup>2)"
proof -
  have "of_real (\<Sum>k<n. (cmod (dft x n k))\<^sup>2) = (\<Sum>k<n. dft x n k * cnj (dft x n k))"
    by (simp add: complex_norm_square [symmetric])
  also have "\<dots> = (\<Sum>k<n. \<Sum>m<n. \<Sum>m'<n. of_real (x m * x m')
                        * cis (2 * pi * real k * (real m' - real m) / real n))"
    by (simp only: dft_times_cnj)
  also have "\<dots> = (\<Sum>m<n. \<Sum>k<n. \<Sum>m'<n. of_real (x m * x m')
                        * cis (2 * pi * real k * (real m' - real m) / real n))"
    by (rule sum.swap)
  also have "\<dots> = (\<Sum>m<n. \<Sum>m'<n. \<Sum>k<n. of_real (x m * x m')
                        * cis (2 * pi * real k * (real m' - real m) / real n))"
    by (intro sum.cong refl sum.swap)
  also have "\<dots> = (\<Sum>m<n. \<Sum>m'<n. of_real (x m * x m')
                        * (\<Sum>k<n. cis (2 * pi * real k * (real m' - real m) / real n)))"
    by (simp only: sum_distrib_left)
  also have "\<dots> = (\<Sum>m<n. \<Sum>m'<n. of_real (x m * x m') * (if m = m' then of_nat n else 0))"
    by (intro sum.cong refl) (simp only: roots_of_unity_sum lessThan_iff)
  also have "\<dots> = (\<Sum>m<n. of_real (x m * x m) * of_nat n)"
  proof (intro sum.cong refl)
    fix m assume "m \<in> {..<n}"
    have "(\<Sum>m'<n. of_real (x m * x m') * (if m = m' then of_nat n else 0))
            = (\<Sum>m'<n. if m = m' then of_real (x m * x m') * of_nat n else (0::complex))"
      by (intro sum.cong refl) simp
    also have "\<dots> = of_real (x m * x m) * of_nat n"
      using \<open>m \<in> {..<n}\<close> by simp
    finally show "(\<Sum>m'<n. of_real (x m * x m') * (if m = m' then of_nat n else 0))
            = (of_real (x m * x m) * of_nat n :: complex)" .
  qed
  also have "\<dots> = of_real (real n * (\<Sum>m<n. (x m)\<^sup>2))"
    by (simp add: power2_eq_square sum_distrib_left mult.commute)
  finally show ?thesis
    by (simp only: of_real_eq_iff)
qed

lemma dft_mirror:
  assumes "k \<le> n"
  shows "dft x n (n - k) = cnj (dft x n k)"
proof (cases "n = 0")
  case True
  then show ?thesis by (simp add: dft_def)
next
  case False
  have "cis (- (2 * pi * real m * real (n - k) / real n)) = cis (2 * pi * real m * real k / real n)" for m
  proof -
    have "- (2 * pi * real m * real (n - k) / real n)
            = 2 * pi * real m * real k / real n + 2 * pi * (- real m)"
      using assms False by (simp add: field_simps)
    then have "cis (- (2 * pi * real m * real (n - k) / real n))
            = cis (2 * pi * real m * real k / real n) * cis (2 * pi * (- real m))"
      by (simp only: cis_mult)
    also have "cis (2 * pi * (- real m)) = 1"
      by (rule cis_multiple_2pi) simp
    finally show ?thesis by simp
  qed
  then show ?thesis
    by (simp add: dft_def cis_cnj)
qed

lemma other_bins_bound:
  assumes "0 < p" and "2 * p < n" and "2 * k \<le> n" and "k \<noteq> p"
  shows "(cmod (dft x n k))\<^sup>2 + 2 * (cmod (dft x n p))\<^sup>2 \<le> real n * (\<Sum>m<n. (x m)\<^sup>2)"
proof -
  let ?e = "\<lambda>k. (cmod (dft x n k))\<^sup>2"
  have mirror: "?e (n - p) = ?e p"
    using assms by (simp add: dft_mirror)
  have "sum ?e {k, p, n - p} \<le> sum ?e {..<n}"
    using assms by (intro sum_mono2) auto
  moreover have "sum ?e {k, p, n - p} = ?e k + ?e p + ?e (n - p)"
    using assms by auto
  ultimately show ?thesis
    by (simp add: mirror parseval)
qed

subsection \<open>\<^verbatim>\<open>np.argmax\<close> finds a strict maximum\<close>

lemma argmax_scan_keeps:
  "\<forall>y \<in> set ys. y \<le> best_val \<Longrightarrow> argmax_scan best best_val i ys = best"
  by (induction ys arbitrary: i) auto

lemma argmax_scan_finds:
  assumes "j < length ys" and "\<forall>j' < length ys. j' \<noteq> j \<longrightarrow> ys ! j' < ys ! j"
    and "best_val < ys ! j"
  shows "argmax_scan best best_val i ys = i + j"
  using assms
proof (induction ys arbitrary: best best_val i j)
  case Nil
  then show ?case by simp
next
  case (Cons y ys)
  show ?case
  proof (cases j)
    case 0
    have "\<forall>z \<in> set ys. z \<le> y"
    proof
      fix z assume "z \<in> set ys"
      then obtain l where "l < length ys" "ys ! l = z" by (auto simp: in_set_conv_nth)
      with Cons.prems(2) [rule_format, of "Suc l"] 0 show "z \<le> y" by simp
    qed
    then have "argmax_scan i y (Suc i) ys = i" by (rule argmax_scan_keeps)
    with Cons.prems 0 show ?thesis by simp
  next
    case (Suc j')
    have j': "j' < length ys" using Cons.prems(1) Suc by simp
    have uniq: "\<forall>l < length ys. l \<noteq> j' \<longrightarrow> ys ! l < ys ! j'"
    proof (intro allI impI)
      fix l assume "l < length ys" "l \<noteq> j'"
      with Cons.prems(2) [rule_format, of "Suc l"] Suc show "ys ! l < ys ! j'" by simp
    qed
    have head: "y < ys ! j'"
      using Cons.prems(2) [rule_format, of 0] Suc by simp
    show ?thesis
    proof (cases "y > best_val")
      case True
      from Cons.IH [OF j' uniq head, of i "Suc i"] True Suc show ?thesis by simp
    next
      case False
      have "best_val < ys ! j'" using Cons.prems(3) Suc by simp
      from Cons.IH [OF j' uniq this, of best "Suc i"] False Suc show ?thesis by simp
    qed
  qed
qed

lemma np_argmax_unique_max:
  assumes "i < length xs" and "\<forall>j < length xs. j \<noteq> i \<longrightarrow> xs ! j < xs ! i"
  shows "np_argmax xs = i"
proof (cases xs)
  case Nil
  with assms show ?thesis by simp
next
  case (Cons x rest)
  show ?thesis
  proof (cases i)
    case 0
    have "\<forall>z \<in> set rest. z \<le> x"
    proof
      fix z assume "z \<in> set rest"
      then obtain l where "l < length rest" "rest ! l = z" by (auto simp: in_set_conv_nth)
      with assms(2) [rule_format, of "Suc l"] 0 Cons show "z \<le> x" by simp
    qed
    then have "argmax_scan 0 x 1 rest = 0" by (rule argmax_scan_keeps)
    with 0 Cons show ?thesis by (simp add: np_argmax_def)
  next
    case (Suc j)
    have j: "j < length rest" using assms(1) Suc Cons by simp
    have uniq: "\<forall>l < length rest. l \<noteq> j \<longrightarrow> rest ! l < rest ! j"
    proof (intro allI impI)
      fix l assume "l < length rest" "l \<noteq> j"
      with assms(2) [rule_format, of "Suc l"] Suc Cons show "rest ! l < rest ! j" by simp
    qed
    have "x < rest ! j"
      using assms(2) [rule_format, of 0] Suc Cons by simp
    from argmax_scan_finds [OF j uniq this, of 0 1] Suc Cons show ?thesis
      by (simp add: np_argmax_def)
  qed
qed

subsection \<open>The spectrum of a square wave at its fundamental\<close>

lemma sum_periodic:
  fixes g :: "nat \<Rightarrow> 'a::semiring_1"
  assumes "\<And>m. g (m + p) = g m"
  shows "(\<Sum>m<q * p. g m) = of_nat q * (\<Sum>r<p. g r)"
proof -
  have shift: "g (r + m * p) = g r" for r m
  proof (induction m)
    case 0
    show ?case by simp
  next
    case (Suc m)
    have "g (r + Suc m * p) = g ((r + m * p) + p)"
      by (simp add: add.commute add.left_commute)
    also have "\<dots> = g (r + m * p)" by (rule assms)
    finally show ?case using Suc by simp
  qed
  have "(\<Sum>m<q * p. g m) = (\<Sum>m<q. sum g {m * p ..< m * p + p})"
    by (rule sum.nat_group [symmetric])
  also have "\<dots> = (\<Sum>m<q. \<Sum>r<p. g r)"
  proof (rule sum.cong [OF refl])
    fix m
    have "sum g {m * p ..< m * p + p} = sum g {0 + m * p ..< p + m * p}"
      by (simp add: add.commute)
    also have "\<dots> = (\<Sum>r = 0..<p. g (r + m * p))"
      by (rule sum.shift_bounds_nat_ivl)
    also have "\<dots> = (\<Sum>r<p. g r)"
      by (simp add: shift atLeast0LessThan)
    finally show "sum g {m * p ..< m * p + p} = (\<Sum>r<p. g r)" .
  qed
  also have "\<dots> = of_nat q * (\<Sum>r<p. g r)"
    by simp
  finally show ?thesis .
qed

lemma cis_minus_pi: "cis (- pi) = - 1"
  by (simp add: complex_eq_iff)

lemma sum_two_halves:
  fixes f g :: "nat \<Rightarrow> 'a::comm_monoid_add"
  shows "(\<Sum>r<2 * h. if r mod (2 * h) < h then f r else g r)
           = (\<Sum>r<h. f r) + (\<Sum>r<h. g (r + h))"
proof -
  let ?F = "\<lambda>r. if r mod (2 * h) < h then f r else g r"
  have "sum ?F {0..<h} + sum ?F {h..<2 * h} = sum ?F {0..<2 * h}"
    by (rule sum.atLeastLessThan_concat) simp_all
  then have "sum ?F {..<2 * h} = sum ?F {0..<h} + sum ?F {h..<2 * h}"
    by (simp only: atLeast0LessThan)
  moreover have "sum ?F {0..<h} = sum f {0..<h}"
    by (rule sum.cong) auto
  moreover have "sum ?F {h..<2 * h} = sum g {h..<2 * h}"
    by (rule sum.cong) auto
  moreover have "sum g {h..<2 * h} = (\<Sum>r = 0..<h. g (r + h))"
    using sum.shift_bounds_nat_ivl [of g 0 h h] by (simp add: mult_2)
  ultimately show ?thesis
    by (simp add: atLeast0LessThan)
qed

lemma square_wave_periodic: "square_wave a b h (m + 2 * h) = square_wave a b h m"
  by (simp add: square_wave_def)

lemma square_wave_energy:
  "(\<Sum>m<q * (2 * h). (square_wave a b h m)\<^sup>2) = real q * (real h * a\<^sup>2 + real h * b\<^sup>2)"
proof -
  have "(\<Sum>m<q * (2 * h). (square_wave a b h m)\<^sup>2)
          = of_nat q * (\<Sum>r<2 * h. (square_wave a b h r)\<^sup>2)"
    by (rule sum_periodic) (simp add: square_wave_periodic)
  also have "(\<Sum>r<2 * h. (square_wave a b h r)\<^sup>2)
          = (\<Sum>r<2 * h. if r mod (2 * h) < h then a\<^sup>2 else b\<^sup>2)"
    by (rule sum.cong) (simp_all add: square_wave_def)
  also have "\<dots> = real h * a\<^sup>2 + real h * b\<^sup>2"
    by (simp only: sum_two_halves) simp
  finally show ?thesis by simp
qed

lemma square_wave_dft:
  assumes "0 < h" and "0 < q"
  defines "z \<equiv> cis (- (pi / real h))"
  shows "dft (square_wave a b h) (q * (2 * h)) q = of_nat q * (of_real (a - b) * (\<Sum>r<h. z ^ r))"
proof -
  have zh: "z ^ h = - 1"
    using assms(1) by (simp add: z_def DeMoivre cis_minus_pi)
  have z2h: "z ^ (2 * h) = 1"
    by (simp add: power_mult power2_eq_square zh mult.commute [of 2 h])
  have twiddle: "cis (- (2 * pi * real m * real q / real (q * (2 * h)))) = z ^ m" for m
  proof -
    have "2 * pi * real m * real q / real (q * (2 * h)) = real m * (pi / real h)"
      using assms by (simp add: field_simps)
    then show ?thesis by (simp add: z_def DeMoivre)
  qed
  let ?g = "\<lambda>m. of_real (square_wave a b h m) * z ^ m"
  have "dft (square_wave a b h) (q * (2 * h)) q = (\<Sum>m<q * (2 * h). ?g m)"
    by (simp only: dft_def twiddle)
  also have "\<dots> = of_nat q * (\<Sum>r<2 * h. ?g r)"
    by (rule sum_periodic) (simp add: square_wave_periodic power_add z2h)
  also have "(\<Sum>r<2 * h. ?g r)
          = (\<Sum>r<2 * h. if r mod (2 * h) < h then of_real a * z ^ r else of_real b * z ^ r)"
    by (rule sum.cong) (simp_all add: square_wave_def)
  also have "\<dots> = (\<Sum>r<h. of_real a * z ^ r) + (\<Sum>r<h. of_real b * z ^ (r + h))"
    by (rule sum_two_halves)
  also have "\<dots> = of_real (a - b) * (\<Sum>r<h. z ^ r)"
  proof -
    define S where "S = (\<Sum>r<h. z ^ r)"
    have "(\<Sum>r<h. of_real a * z ^ r) = of_real a * S"
      by (simp add: S_def sum_distrib_left)
    moreover have "(\<Sum>r<h. of_real b * z ^ (r + h)) = - (of_real b * S)"
      by (simp add: S_def power_add zh sum_distrib_left sum_negf)
    ultimately show ?thesis
      unfolding S_def [symmetric] by (simp add: left_diff_distrib)
  qed
  finally show ?thesis .
qed

lemma half_turn_sum_norm:
  assumes "0 < h"
  defines "z \<equiv> cis (- (pi / real h))"
  shows "(cmod (\<Sum>r<h. z ^ r))\<^sup>2 * (1 - cos (pi / real h)) = 2"
proof -
  have zh: "z ^ h = - 1"
    using assms(1) by (simp add: z_def DeMoivre cis_minus_pi)
  have "(\<Sum>r<h. z ^ r) * (1 - z) = 1 - z ^ h"
    by (simp add: one_diff_power_eq mult.commute)
  then have "(\<Sum>r<h. z ^ r) * (1 - z) = 2"
    by (simp add: zh)
  then have "cmod (\<Sum>r<h. z ^ r) * cmod (1 - z) = 2"
    by (metis norm_mult norm_numeral)
  then have "(cmod (\<Sum>r<h. z ^ r) * cmod (1 - z))\<^sup>2 = 2\<^sup>2"
    by (simp only:)
  then have "(cmod (\<Sum>r<h. z ^ r))\<^sup>2 * (cmod (1 - z))\<^sup>2 = 4"
    by (simp add: power_mult_distrib)
  moreover have "(cmod (1 - z))\<^sup>2 = 2 * (1 - cos (pi / real h))"
  proof -
    have "(cmod (1 - z))\<^sup>2 = (1 - cos (pi / real h))\<^sup>2 + (sin (pi / real h))\<^sup>2"
      by (simp add: z_def cmod_power2)
    also have "\<dots> = 1 - 2 * cos (pi / real h)
                       + ((cos (pi / real h))\<^sup>2 + (sin (pi / real h))\<^sup>2)"
      by (simp add: power2_diff)
    also have "\<dots> = 2 * (1 - cos (pi / real h))"
      by simp
    finally show ?thesis .
  qed
  ultimately have "(cmod (\<Sum>r<h. z ^ r))\<^sup>2 * (2 * (1 - cos (pi / real h))) = 4"
    by (simp only:)
  then show ?thesis by (simp add: algebra_simps)
qed

subsection \<open>The clipped block\<close>

lemma sint_samples:
  "sint (- 32768 :: 16 word) = - 32768" "sint (32767 :: 16 word) = 32767"
  "sint (np_abs (- 32768 :: 16 word)) = - 32768" "sint (np_abs (32767 :: 16 word)) = 32767"
  by (simp_all add: np_abs_def)

lemma length_clipped_block: "length clipped_block = 4096"
  by (simp add: clipped_block_def)

lemma clipped_block_nth:
  "m < 4096 \<Longrightarrow> clipped_block ! m = (if m mod (2 * 8) < 8 then - 32768 else 32767)"
  by (simp add: clipped_block_def)

lemma sum_list_clipped_block:
  fixes f :: "16 word \<Rightarrow> int"
  shows "sum_list (map f clipped_block) = 256 * (8 * f (- 32768) + 8 * f 32767)"
proof -
  let ?g = "\<lambda>m::nat. if m mod (2 * 8) < 8 then f (- 32768) else f 32767"
  have "sum_list (map f clipped_block) = (\<Sum>m<256 * (2 * 8). ?g m)"
    by (simp add: clipped_block_def comp_def interv_sum_list_conv_sum_set_nat
          atLeast0LessThan if_distrib cong: if_cong)
  also have "\<dots> = of_nat 256 * (\<Sum>r<2 * 8. ?g r)"
    by (rule sum_periodic) simp
  also have "(\<Sum>r<2 * 8. ?g r) = (\<Sum>r<(8::nat). f (- 32768)) + (\<Sum>r<(8::nat). f 32767)"
    by (rule sum_two_halves)
  finally show ?thesis by simp
qed

lemma volume_of_clipped_block: "volume_of clipped_block = - 1 / 2"
  by (simp add: volume_of_def sum_list_clipped_block length_clipped_block sint_samples)

lemma mean_abs_clipped_block: "mean_abs_magnitude clipped_block = 65535 / 2"
  by (simp add: mean_abs_magnitude_def sum_list_clipped_block length_clipped_block sint_samples)

lemma length_rfft: "length (rfft audio_array) = length audio_array div 2 + 1"
  by (simp add: rfft_def Let_def)

lemma rfft_nth:
  assumes "k \<le> length audio_array div 2"
    and "\<And>m. m < length audio_array \<Longrightarrow> real_of_int (sint (audio_array ! m)) = x m"
  shows "rfft audio_array ! k = dft x (length audio_array) k"
proof -
  have "rfft audio_array ! k =
      (\<Sum>m<length audio_array. of_int (sint (audio_array ! m))
          * cis (- (2 * pi * real m * real k / real (length audio_array))))"
    using assms(1) by (simp add: rfft_def Let_def nth_append less_Suc_eq_le)
  also have "\<dots> = dft x (length audio_array) k"
    unfolding dft_def
  proof (rule sum.cong [OF refl])
    fix m assume "m \<in> {..<length audio_array}"
    then have "m < length audio_array" by simp
    then have "real_of_int (sint (audio_array ! m)) = x m" by (rule assms(2))
    moreover have "(of_int (sint (audio_array ! m)) :: complex)
                     = of_real (real_of_int (sint (audio_array ! m)))"
      by (rule of_real_of_int_eq [symmetric])
    ultimately have "(of_int (sint (audio_array ! m)) :: complex) = of_real (x m)"
      by (simp only:)
    then show "of_int (sint (audio_array ! m))
                 * cis (- (2 * pi * real m * real k / real (length audio_array)))
             = of_real (x m) * cis (- (2 * pi * real m * real k / real (length audio_array)))"
      by simp
  qed
  finally show ?thesis .
qed

lemma clipped_block_square_wave:
  "m < 4096 \<Longrightarrow> real_of_int (sint (clipped_block ! m)) = square_wave (- 32768) 32767 8 m"
  by (simp add: clipped_block_nth square_wave_def sint_samples)

lemma cos_pi_8_bound: "cos (pi / 8) \<ge> 23 / 25"
proof -
  let ?c = "cos (pi / 8)"
  have "(7 / 5)\<^sup>2 \<le> (2::real)" by (simp add: power2_eq_square)
  then have r: "7 / 5 \<le> sqrt 2" by (rule real_le_rsqrt)
  have "cos (2 * (pi / 8)) = 2 * ?c\<^sup>2 - 1" by (rule cos_double_cos)
  moreover have "2 * (pi / 8) = pi / 4" by simp
  ultimately have "2 * ?c\<^sup>2 - 1 = sqrt 2 / 2" by (simp only: cos_45)
  with r have sq: "?c\<^sup>2 \<ge> 17 / 20" by simp
  have pos: "0 \<le> ?c" by (rule cos_ge_zero) (use pi_gt_zero in simp_all)
  show ?thesis
  proof (rule ccontr)
    assume "\<not> 23 / 25 \<le> ?c"
    then have "?c < 23 / 25" by simp
    with pos have "?c * ?c < (23 / 25) * (23 / 25)"
      by (intro mult_strict_mono') simp_all
    with sq show False by (simp add: power2_eq_square)
  qed
qed

lemma clipped_block_peak_energy:
  "(cmod (dft (square_wave (- 32768) 32767 8) 4096 256))\<^sup>2 \<ge> 25 * (65536 * 65535\<^sup>2)"
proof -
  define S :: complex where "S = (\<Sum>r<8. cis (- (pi / real 8)) ^ r)"
  define E where "E = (cmod S)\<^sup>2"
  have "E * (1 - cos (pi / real 8)) = 2"
    unfolding E_def S_def by (rule half_turn_sum_norm) simp
  then have e: "E * (1 - cos (pi / 8)) = 2" by simp
  have "E \<ge> 0" by (simp add: E_def)
  have c: "1 - cos (pi / 8) \<le> 2 / 25" using cos_pi_8_bound by simp
  have "E \<ge> 25"
  proof (rule ccontr)
    assume "\<not> 25 \<le> E"
    then have "E < 25" by simp
    have "E * (1 - cos (pi / 8)) \<le> E * (2 / 25)"
      using c \<open>E \<ge> 0\<close> by (rule mult_left_mono)
    with e \<open>E < 25\<close> show False by simp
  qed
  have "dft (square_wave (- 32768) 32767 8) (256 * (2 * 8)) 256
          = of_nat 256 * (of_real (- 32768 - 32767) * (\<Sum>r<8. cis (- (pi / real 8)) ^ r))"
    by (rule square_wave_dft) simp_all
  then have "dft (square_wave (- 32768) 32767 8) 4096 256 = of_real (256 * (- 65535)) * S"
    by (simp add: S_def)
  then have "(cmod (dft (square_wave (- 32768) 32767 8) 4096 256))\<^sup>2
               = (256 * 65535)\<^sup>2 * E"
    by (simp add: E_def norm_mult power_mult_distrib del: of_real_mult of_real_minus)
  with \<open>E \<ge> 25\<close> show ?thesis by (simp add: power_mult_distrib)
qed

lemma clipped_block_other_bins:
  assumes "k \<le> 2048" and "k \<noteq> 256"
  shows "cmod (dft (square_wave (- 32768) 32767 8) 4096 k)
           < cmod (dft (square_wave (- 32768) 32767 8) 4096 256)"
proof -
  let ?x = "square_wave (- 32768) 32767 8"
  have "(\<Sum>m<256 * (2 * 8). (?x m)\<^sup>2) = real 256 * (real 8 * (- 32768)\<^sup>2 + real 8 * 32767\<^sup>2)"
    by (rule square_wave_energy)
  then have energy: "real 4096 * (\<Sum>m<4096. (?x m)\<^sup>2) = 4096 * (2048 * (32768\<^sup>2 + 32767\<^sup>2))"
    by simp
  have "(cmod (dft ?x 4096 k))\<^sup>2 + 2 * (cmod (dft ?x 4096 256))\<^sup>2
          \<le> real 4096 * (\<Sum>m<4096. (?x m)\<^sup>2)"
    using assms by (intro other_bins_bound) simp_all
  with energy clipped_block_peak_energy
  have "(cmod (dft ?x 4096 k))\<^sup>2 < (cmod (dft ?x 4096 256))\<^sup>2"
    by simp
  then show ?thesis
    by (rule power2_less_imp_less) simp
qed

lemma clipped_block_peak_index: "np_argmax (map cmod (rfft clipped_block)) = 256"
proof (rule np_argmax_unique_max)
  show "256 < length (map cmod (rfft clipped_block))"
    by (simp add: length_rfft length_clipped_block)
  show "\<forall>j<length (map cmod (rfft clipped_block)). j \<noteq> 256 \<longrightarrow>
          map cmod (rfft clipped_block) ! j < map cmod (rfft clipped_block) ! 256"
  proof (intro allI impI)
    fix j assume "j < length (map cmod (rfft clipped_block))" "j \<noteq> 256"
    then have j: "j \<le> 2048" by (simp add: length_rfft length_clipped_block)
    have nth: "rfft clipped_block ! i = dft (square_wave (- 32768) 32767 8) 4096 i"
      if "i \<le> 2048" for i
    proof -
      have "rfft clipped_block ! i
              = dft (square_wave (- 32768) 32767 8) (length clipped_block) i"
      proof (rule rfft_nth)
        show "i \<le> length clipped_block div 2"
          using that by (simp add: length_clipped_block)
        show "real_of_int (sint (clipped_block ! m)) = square_wave (- 32768) 32767 8 m"
          if "m < length clipped_block" for m
          using that unfolding length_clipped_block by (rule clipped_block_square_wave)
      qed
      then show ?thesis by (simp only: length_clipped_block)
    qed
    from clipped_block_other_bins [OF j \<open>j \<noteq> 256\<close>]
    show "map cmod (rfft clipped_block) ! j < map cmod (rfft clipped_block) ! 256"
      using j by (simp add: length_rfft length_clipped_block nth)
  qed
qed

lemma clipped_block_nonempty: "clipped_block \<noteq> []"
  using length_clipped_block by fastforce

lemma get_frequency_clipped_block: "get_frequency clipped_block = Inr None"
  by (simp add: get_frequency_def Let_def volume_of_clipped_block clipped_block_nonempty)

text \<open>The loop therefore treats the clipped block like a block of silence.\<close>

lemma clipped_block_step:
  "process_audio_step self (Inr clipped_block) current_time current_time2 =
     process_audio_detect (self\<lparr>freq_buffer := deque_append 5 (freq_buffer self) None\<rparr>)
       None current_time current_time2"
  by (simp add: process_audio_step_def get_frequency_clipped_block
        process_audio_stabilize_def frequency_to_note_def Let_def)

subsection \<open>\<open>get_frequency\<close> against the estimator of the specification\<close>

text \<open>The wrapped absolute value never exceeds the true one, so a block that is quiet
  in the sense of the specification is rejected; and on blocks without the sample
  \<open>-32768\<close> the two estimators agree.\<close>

lemma sint_np_abs:
  fixes x :: "16 word"
  assumes "sint x \<noteq> - 32768"
  shows "sint (np_abs x) = \<bar>sint x\<bar>"
proof (cases "sint x < 0")
  case False
  then show ?thesis by (simp add: np_abs_def)
next
  case True
  have "- 32768 \<le> sint x" using sint_ge [of x] by simp
  with assms True have "- (2 ^ 15) \<le> - sint x" "- sint x < 2 ^ 15" by simp_all
  then have "signed_take_bit 15 (- sint x) = - sint x"
    by (rule signed_take_bit_int_eq_self)
  then have "sint (- x) = - sint x"
    by (simp add: sint_word_ariths)
  with True show ?thesis by (simp add: np_abs_def)
qed

lemma sint_np_abs_le:
  fixes x :: "16 word"
  shows "sint (np_abs x) \<le> \<bar>sint x\<bar>"
proof (cases "sint x = - 32768")
  case False
  then show ?thesis by (simp add: sint_np_abs)
next
  case True
  then have "sint x = sint (- 32768 :: 16 word)"
    by (simp only: sint_samples)
  then have "x = - 32768"
    by (rule signed_word_eqI)
  then show ?thesis by (simp add: sint_samples)
qed

lemma volume_le_mean_abs: "volume_of audio_array \<le> mean_abs_magnitude audio_array"
proof -
  have "sum_list (map (\<lambda>x. sint (np_abs x)) audio_array)
          \<le> sum_list (map (\<lambda>x. \<bar>sint x\<bar>) audio_array)"
    by (rule sum_list_mono) (rule sint_np_abs_le)
  then show ?thesis
    by (simp add: volume_of_def mean_abs_magnitude_def divide_right_mono)
qed

lemma quiet_block_rejected:
  assumes "audio_array \<noteq> []" and "mean_abs_magnitude audio_array < 200"
  shows "get_frequency audio_array = Inr None"
proof -
  have "volume_of audio_array < 200"
    using volume_le_mean_abs [of audio_array] assms(2) by simp
  with assms(1) show ?thesis by (simp add: get_frequency_def)
qed

lemma get_frequency_estimator_spec:
  assumes "audio_array \<noteq> []" and "\<forall>x \<in> set audio_array. sint x \<noteq> - 32768"
  shows "get_frequency audio_array = Inr (estimator_spec audio_array)"
proof -
  have "map (\<lambda>x. sint (np_abs x)) audio_array = map (\<lambda>x. \<bar>sint x\<bar>) audio_array"
    using assms(2) by (simp add: sint_np_abs)
  then have "volume_of audio_array = mean_abs_magnitude audio_array"
    by (simp only: volume_of_def mean_abs_magnitude_def)
  with assms(1) show ?thesis
    by (simp add: get_frequency_def estimator_spec_def Let_def)
qed

subsection \<open>The frequency estimator on a clipped block\<close>

text \<open>
  Claim C6 says that \<^verbatim>\<open>get_frequency\<close> returns absent exactly when the mean absolute
  sample magnitude is below the volume floor or the peak frequency is outside 500 to
  3000 Hz, and the peak frequency otherwise.  On the clipped block the mean absolute
  magnitude is 32767.5, far above the floor of 200, and the peak of the spectrum is bin
  256, that is 2756.25 Hz: the estimator of the specification yields 2756.25.  The code
  returns absent, because \<^verbatim>\<open>np.abs\<close> maps the sample \<open>-32768\<close> to itself and the
  mean it computes is \<open>-0.5\<close>.
\<close>

theorem clipped_block_rejected:
  "get_frequency clipped_block = Inr None
   \<and> mean_abs_magnitude clipped_block = 32767.5
   \<and> estimator_spec clipped_block = Some 2756.25"
proof -
  have "get_frequency clipped_block = Inr None"
    by (rule get_frequency_clipped_block)
  moreover have "mean_abs_magnitude clipped_block = 32767.5"
    by (simp add: mean_abs_clipped_block)
  moreover have "estimator_spec clipped_block = Some 2756.25"
    by (simp add: estimator_spec_def Let_def mean_abs_clipped_block clipped_block_peak_index
          length_clipped_block SAMPLE_RATE_def)
  ultimately show ?thesis by simp
qed

subsection \<open>The scripted scenario\<close>

text \<open>
  Claim C1, as stated: the ticks (A, 0 ms), (A, 60 ms), (none, 110 ms), (B, 200 ms),
  (B, 260 ms) make the tracker report A with a duration of 60 ms when the tick of
  110 ms arrives.  It does not: at 110 ms the last detection is only 50 ms old, below
  \<open>SILENCE_THRESHOLD\<close>, so nothing is reported during the first three ticks, and no
  report of A with 60 ms occurs anywhere in the run.
\<close>

theorem scripted_scenario_counterexample:
  "snd (run_detect init (take 3 scripted_ticks)) = []
   \<and> Note_played ''A'' 0.06 \<notin> set (snd (run_detect init scripted_ticks))"
  by (simp add: scripted_ticks_def detect_eval)

text \<open>
  Claim C1, amended: on the scripted ticks the tracker reports exactly one note, A with
  a duration of 200 ms, and it does so at the tick of 200 ms, when B replaces A (nothing
  is reported up to 110 ms).  Afterwards B is pending: the current note is B, started
  at 200 ms and last detected at 260 ms.  A later tick without a note at 400 ms, more
  than 100 ms after the last detection, reports B with a duration of 60 ms.
\<close>

theorem scripted_scenario:
  "run_detect init scripted_ticks =
     (\<lparr>current_note = Some ''B'', last_note_time = 0, note_start_time = 0.2,
       last_detection_time = 0.26, last_dropout_time = 0, freq_buffer = []\<rparr>,
      [Note_played ''A'' 0.2, Callback [PyStr ''A'']])
   \<and> snd (run_detect init (take 3 scripted_ticks)) = []
   \<and> snd (run_detect init (take 4 scripted_ticks)) =
       [Note_played ''A'' 0.2, Callback [PyStr ''A'']]
   \<and> snd (run_detect init (scripted_ticks @ [(None, 0.4, 0.4)])) =
       [Note_played ''A'' 0.2, Callback [PyStr ''A''],
        Note_played ''B'' 0.06, Callback [PyStr ''B'']]"
  by (simp add: scripted_ticks_def detect_eval)

subsection \<open>What the callback receives\<close>

text \<open>
  Claim C2, as stated: the callback is invoked with the note and its duration.  In the
  run below note A is completed after 300 ms; the callback is called with the single
  argument \<open>A\<close>, and not with the pair of \<open>A\<close> and the duration.
\<close>

theorem callback_arguments_counterexample:
  "Callback [PyStr ''A''] \<in> set (snd (process_audio_detect active_A (Some ''D'') 0.3 0.3))
   \<and> Callback [PyStr ''A'', PyFloat 0.3]
        \<notin> set (snd (process_audio_detect active_A (Some ''D'') 0.3 0.3))"
  by (simp add: active_A_def detect_eval)

text \<open>
  Claim C2, amended: a tick completes a note exactly in two cases, both with a current
  note \<open>s\<close>: a different note is detected and \<open>now - note_start_time\<close> is at
  least \<open>MIN_NOTE_DURATION\<close>, or no note is detected, the silence has reached
  \<open>SILENCE_THRESHOLD\<close> and \<open>last_detection_time - note_start_time\<close> is at least
  \<open>MIN_NOTE_DURATION\<close>.  In these cases that duration is printed and the callback
  is invoked exactly once, with the name \<open>s\<close> as its only argument; in every other
  case the callback is not invoked.  After a tick that invokes it the current note has
  changed, so the run that was reported is over.
\<close>

theorem callback_once_with_note:
  "snd (process_audio_detect self d t1 t2) =
     (case current_note self of
        None \<Rightarrow> []
      | Some s \<Rightarrow>
          if truthy d then
            (if d \<noteq> Some s \<and> t1 - note_start_time self \<ge> MIN_NOTE_DURATION
             then [Note_played s (t1 - note_start_time self), Callback [PyStr s]]
             else [])
          else
            (if t2 - last_detection_time self \<ge> SILENCE_THRESHOLD
                \<and> last_detection_time self - note_start_time self \<ge> MIN_NOTE_DURATION
             then [Note_played s (last_detection_time self - note_start_time self),
                   Callback [PyStr s]]
             else []))
   \<and> (snd (process_audio_detect self d t1 t2) = []
        \<or> current_note (fst (process_audio_detect self d t1 t2)) \<noteq> current_note self)"
  by (auto simp: process_audio_detect_def finish_note_def Let_def
        DROPOUT_TOLERANCE_def SILENCE_THRESHOLD_def split: option.splits)

theorem callback_once_with_note_witness:
  "snd (process_audio_detect active_A (Some ''D'') 0.3 0.3) =
     [Note_played ''A'' 0.3, Callback [PyStr ''A'']]
   \<and> current_note (fst (process_audio_detect active_A (Some ''D'') 0.3 0.3)) = Some ''D''
   \<and> snd (process_audio_detect active_A None 0.5 0.5) =
     [Note_played ''A'' 0.06, Callback [PyStr ''A'']]
   \<and> current_note (fst (process_audio_detect active_A None 0.5 0.5)) = None
   \<and> snd (process_audio_detect active_A (Some ''A'') 0.3 0.3) = []
   \<and> snd (process_audio_detect active_A None 0.11 0.11) = []
   \<and> snd (process_audio_detect (active_A\<lparr>last_detection_time := 0.03\<rparr>) (Some ''D'') 0.04 0.04) = []
   \<and> snd (process_audio_detect init (Some ''D'') 0.3 0.3) = []"
proof -
  from callback_once_with_note [of active_A "Some ''D''" "0.3" "0.3"]
  have 1: "snd (process_audio_detect active_A (Some ''D'') 0.3 0.3) =
     [Note_played ''A'' 0.3, Callback [PyStr ''A'']]
   \<and> current_note (fst (process_audio_detect active_A (Some ''D'') 0.3 0.3)) = Some ''D''"
    by (simp add: active_A_def detect_eval)
  from callback_once_with_note [of active_A None "0.5" "0.5"]
  have 2: "snd (process_audio_detect active_A None 0.5 0.5) =
     [Note_played ''A'' 0.06, Callback [PyStr ''A'']]
   \<and> current_note (fst (process_audio_detect active_A None 0.5 0.5)) = None"
    by (simp add: active_A_def detect_eval)
  from callback_once_with_note [of active_A "Some ''A''" "0.3" "0.3"]
  have 3: "snd (process_audio_detect active_A (Some ''A'') 0.3 0.3) = []"
    by (simp add: active_A_def truthy_def)
  from callback_once_with_note [of active_A None "0.11" "0.11"]
  have 4: "snd (process_audio_detect active_A None 0.11 0.11) = []"
    by (simp add: active_A_def init_def truthy_def SILENCE_THRESHOLD_def)
  from callback_once_with_note
    [of "active_A\<lparr>last_detection_time := 0.03\<rparr>" "Some ''D''" "0.04" "0.04"]
  have 5: "snd (process_audio_detect (active_A\<lparr>last_detection_time := 0.03\<rparr>)
             (Some ''D'') 0.04 0.04) = []"
    by (simp add: active_A_def init_def truthy_def MIN_NOTE_DURATION_def)
  from callback_once_with_note [of init "Some ''D''" "0.3" "0.3"]
  have 6: "snd (process_audio_detect init (Some ''D'') 0.3 0.3) = []"
    by (simp add: init_def)
  from 1 2 3 4 5 6 show ?thesis by blast
qed

subsection \<open>Ticks without a note while a note is active\<close>

text \<open>
  Claim C3: when a note \<open>s\<close> is active and the tick carries no note, then, with \<open>now\<close>
  the clock reading of line 176: if \<open>now - last_detection_time\<close> is below
  \<open>SILENCE_THRESHOLD\<close> the recognizer is unchanged and nothing is reported; otherwise
  the run is closed with the duration \<open>last_detection_time - note_start_time\<close>, the
  note is reported exactly when that duration is at least \<open>MIN_NOTE_DURATION\<close>, and
  the current note becomes \<open>None\<close>.
\<close>

theorem silence_tick:
  assumes "current_note self = Some s" and "\<not> truthy detected_note"
  shows "process_audio_detect self detected_note now1 now =
     (if now - last_detection_time self < SILENCE_THRESHOLD then (self, [])
      else (self\<lparr>current_note := None\<rparr>,
            if last_detection_time self - note_start_time self \<ge> MIN_NOTE_DURATION
            then [Note_played s (last_detection_time self - note_start_time self),
                  Callback [PyStr s]]
            else []))"
  using assms
  by (simp add: process_audio_detect_def finish_note_def Let_def
        DROPOUT_TOLERANCE_def SILENCE_THRESHOLD_def)

theorem silence_tick_witness:
  "current_note active_A = Some ''A'' \<and> \<not> truthy None
   \<and> process_audio_detect active_A None 0.11 0.11 = (active_A, [])
   \<and> process_audio_detect active_A None 0.5 0.5 =
       (active_A\<lparr>current_note := None\<rparr>, [Note_played ''A'' 0.06, Callback [PyStr ''A'']])"
proof -
  have a: "current_note active_A = Some ''A''" by (simp add: active_A_def)
  have n: "\<not> truthy None" by (simp add: truthy_def)
  from silence_tick [OF a n, of "0.11" "0.11"]
  have 1: "process_audio_detect active_A None 0.11 0.11 = (active_A, [])"
    by (simp add: active_A_def init_def SILENCE_THRESHOLD_def)
  from silence_tick [OF a n, of "0.5" "0.5"]
  have 2: "process_audio_detect active_A None 0.5 0.5 =
       (active_A\<lparr>current_note := None\<rparr>, [Note_played ''A'' 0.06, Callback [PyStr ''A'']])"
    by (simp add: active_A_def init_def SILENCE_THRESHOLD_def MIN_NOTE_DURATION_def)
  from a n 1 2 show ?thesis by blast
qed

subsection \<open>A different note while a note is active\<close>

text \<open>
  Claim C4: when a note \<open>s\<close> started at \<open>note_start_time\<close> is active and the tick
  carries a different note \<open>other\<close> (a note name, hence not the empty string), the note
  \<open>s\<close> is reported with the duration \<open>now - note_start_time\<close> exactly when that
  duration is at least \<open>MIN_NOTE_DURATION\<close>; in both cases \<open>other\<close> becomes the current
  note, started at \<open>now\<close>.
\<close>

theorem note_change_tick:
  assumes "current_note self = Some s" and "other \<noteq> s" and "other \<noteq> []"
  shows "process_audio_detect self (Some other) now now2 =
     (self\<lparr>last_detection_time := now, current_note := Some other, note_start_time := now\<rparr>,
      if now - note_start_time self \<ge> MIN_NOTE_DURATION
      then [Note_played s (now - note_start_time self), Callback [PyStr s]]
      else [])"
  using assms
  by (simp add: process_audio_detect_def finish_note_def Let_def truthy_def)

theorem note_change_tick_witness:
  "current_note (active_A\<lparr>last_detection_time := 0.03\<rparr>) = Some ''A''
   \<and> ''D'' \<noteq> ''A'' \<and> ''D'' \<noteq> []
   \<and> process_audio_detect (active_A\<lparr>last_detection_time := 0.03\<rparr>) (Some ''D'') 0.05 0.05 =
       (active_A\<lparr>last_detection_time := 0.05, current_note := Some ''D'',
                  note_start_time := 0.05\<rparr>,
        [Note_played ''A'' 0.05, Callback [PyStr ''A'']])
   \<and> process_audio_detect (active_A\<lparr>last_detection_time := 0.03\<rparr>) (Some ''D'') 0.049 0.049 =
       (active_A\<lparr>last_detection_time := 0.049, current_note := Some ''D'',
                  note_start_time := 0.049\<rparr>, [])"
proof -
  let ?st = "active_A\<lparr>last_detection_time := 0.03\<rparr>"
  have a: "current_note ?st = Some ''A''" by (simp add: active_A_def)
  have d: "''D'' \<noteq> ''A''" "''D'' \<noteq> []" by simp_all
  from note_change_tick [OF a d, of "0.05" "0.05"]
  have 1: "process_audio_detect ?st (Some ''D'') 0.05 0.05 =
       (active_A\<lparr>last_detection_time := 0.05, current_note := Some ''D'',
                  note_start_time := 0.05\<rparr>,
        [Note_played ''A'' 0.05, Callback [PyStr ''A'']])"
    by (simp add: active_A_def init_def MIN_NOTE_DURATION_def)
  from note_change_tick [OF a d, of "0.049" "0.049"]
  have 2: "process_audio_detect ?st (Some ''D'') 0.049 0.049 =
       (active_A\<lparr>last_detection_time := 0.049, current_note := Some ''D'',
                  note_start_time := 0.049\<rparr>, [])"
    by (simp add: active_A_def init_def MIN_NOTE_DURATION_def)
  from a d 1 2 show ?thesis by blast
qed

subsection \<open>Dropouts\<close>

text \<open>
  Claim C5: let a note \<open>s\<close> be active, followed by ticks without a note that all come
  less than \<open>DROPOUT_TOLERANCE\<close> after the last detection, and then by a tick at
  time \<open>t\<close> that carries \<open>s\<close> again.  Nothing is reported during these ticks, and
  the run continues with its original start time: the recognizer is the one before the
  gap with only \<open>last_detection_time\<close> moved to \<open>t\<close>.  When the run is then
  closed, by a different note at time \<open>u\<close> or by silence, exactly one note is
  reported, and its duration is counted from the original start (up to \<open>u\<close>, or up
  to the last detection \<open>t\<close> when silence closes the run).
\<close>

theorem dropout_keeps_one_note:
  assumes "current_note self = Some s" and "s \<noteq> []"
    and "\<forall>(d, t1, t2) \<in> set gap.
           \<not> truthy d \<and> t2 - last_detection_time self < DROPOUT_TOLERANCE"
  shows "run_detect self (gap @ [(Some s, t, t')]) = (self\<lparr>last_detection_time := t\<rparr>, [])
     \<and> (other \<noteq> s \<and> other \<noteq> [] \<and> u - note_start_time self \<ge> MIN_NOTE_DURATION \<longrightarrow>
          run_detect self (gap @ [(Some s, t, t'), (Some other, u, u')]) =
            (self\<lparr>last_detection_time := u, current_note := Some other, note_start_time := u\<rparr>,
             [Note_played s (u - note_start_time self), Callback [PyStr s]]))
     \<and> (v' - t \<ge> SILENCE_THRESHOLD \<and> t - note_start_time self \<ge> MIN_NOTE_DURATION \<longrightarrow>
          run_detect self (gap @ [(Some s, t, t'), (None, v, v')]) =
            (self\<lparr>last_detection_time := t, current_note := None\<rparr>,
             [Note_played s (t - note_start_time self), Callback [PyStr s]]))"
proof -
  have "\<forall>(d, t1, t2) \<in> set gap.
          \<not> truthy d \<and> t2 - last_detection_time self < SILENCE_THRESHOLD"
    using assms(3) by (auto simp: DROPOUT_TOLERANCE_def SILENCE_THRESHOLD_def)
  with assms(1) have skip: "run_detect self (gap @ rest) = run_detect self rest" for rest
    by (rule gap_ticks)
  have resume:
    "process_audio_detect self (Some s) t t' = (self\<lparr>last_detection_time := t\<rparr>, [])"
    using assms(1,2) by (simp add: process_audio_detect_def Let_def truthy_def)
  have change: "process_audio_detect (self\<lparr>last_detection_time := t\<rparr>) (Some other) u u' =
      (self\<lparr>last_detection_time := u, current_note := Some other, note_start_time := u\<rparr>,
       [Note_played s (u - note_start_time self), Callback [PyStr s]])"
    if "other \<noteq> s" "other \<noteq> []" "u - note_start_time self \<ge> MIN_NOTE_DURATION"
    using assms(1) that
    by (simp add: process_audio_detect_def finish_note_def Let_def truthy_def)
  have silence: "process_audio_detect (self\<lparr>last_detection_time := t\<rparr>) None v v' =
      (self\<lparr>last_detection_time := t, current_note := None\<rparr>,
       [Note_played s (t - note_start_time self), Callback [PyStr s]])"
    if "v' - t \<ge> SILENCE_THRESHOLD" "t - note_start_time self \<ge> MIN_NOTE_DURATION"
    using assms(1) that
    by (simp add: process_audio_detect_def finish_note_def Let_def truthy_def
          DROPOUT_TOLERANCE_def SILENCE_THRESHOLD_def)
  show ?thesis
    by (simp add: skip resume change silence)
qed

theorem dropout_keeps_one_note_witness:
  "current_note active_A = Some ''A'' \<and> ''A'' \<noteq> []
   \<and> \<not> truthy None \<and> 0.08 - last_detection_time active_A < DROPOUT_TOLERANCE
   \<and> \<not> truthy (Some '''') \<and> 0.1 - last_detection_time active_A < DROPOUT_TOLERANCE
   \<and> run_detect active_A
        [(None, 0.08, 0.08), (Some '''', 0.1, 0.1), (Some ''A'', 0.12, 0.12)]
       = (active_A\<lparr>last_detection_time := 0.12\<rparr>, [])
   \<and> ''D'' \<noteq> ''A'' \<and> ''D'' \<noteq> [] \<and> 0.3 - note_start_time active_A \<ge> MIN_NOTE_DURATION
   \<and> run_detect active_A
        [(None, 0.08, 0.08), (Some '''', 0.1, 0.1), (Some ''A'', 0.12, 0.12),
         (Some ''D'', 0.3, 0.3)]
       = (active_A\<lparr>last_detection_time := 0.3, current_note := Some ''D'',
                    note_start_time := 0.3\<rparr>,
          [Note_played ''A'' 0.3, Callback [PyStr ''A'']])
   \<and> 0.45 - 0.12 \<ge> SILENCE_THRESHOLD \<and> 0.12 - note_start_time active_A \<ge> MIN_NOTE_DURATION
   \<and> run_detect active_A
        [(None, 0.08, 0.08), (Some '''', 0.1, 0.1), (Some ''A'', 0.12, 0.12),
         (None, 0.45, 0.45)]
       = (active_A\<lparr>last_detection_time := 0.12, current_note := None\<rparr>,
          [Note_played ''A'' 0.12, Callback [PyStr ''A'']])"
proof -
  have a: "current_note active_A = Some ''A''" by (simp add: active_A_def)
  have g: "\<forall>(d, t1, t2) \<in> set [(None, 0.08, 0.08), (Some '''', 0.1, 0.1)].
          \<not> truthy d \<and> t2 - last_detection_time active_A < DROPOUT_TOLERANCE"
    by (simp add: truthy_def active_A_def DROPOUT_TOLERANCE_def)
  have l: "0.3 - note_start_time active_A \<ge> MIN_NOTE_DURATION"
    "0.12 - note_start_time active_A \<ge> MIN_NOTE_DURATION"
    "0.45 - 0.12 \<ge> SILENCE_THRESHOLD"
    by (simp_all add: active_A_def init_def MIN_NOTE_DURATION_def SILENCE_THRESHOLD_def)
  have n: "''D'' \<noteq> ''A''" "''D'' \<noteq> []" "''A'' \<noteq> []" by simp_all
  note inst = dropout_keeps_one_note [OF a n(3) g, where t = "0.12" and t' = "0.12"
      and other = "''D''" and u = "0.3" and u' = "0.3" and v = "0.45" and v' = "0.45"]
  from inst have 1: "run_detect active_A
        [(None, 0.08, 0.08), (Some '''', 0.1, 0.1), (Some ''A'', 0.12, 0.12)]
       = (active_A\<lparr>last_detection_time := 0.12\<rparr>, [])"
    by simp
  from inst l n have 2: "run_detect active_A
        [(None, 0.08, 0.08), (Some '''', 0.1, 0.1), (Some ''A'', 0.12, 0.12),
         (Some ''D'', 0.3, 0.3)]
       = (active_A\<lparr>last_detection_time := 0.3, current_note := Some ''D'',
                    note_start_time := 0.3\<rparr>,
          [Note_played ''A'' 0.3, Callback [PyStr ''A'']])"
    by (simp add: active_A_def init_def)
  from inst l have 3: "run_detect active_A
        [(None, 0.08, 0.08), (Some '''', 0.1, 0.1), (Some ''A'', 0.12, 0.12),
         (None, 0.45, 0.45)]
       = (active_A\<lparr>last_detection_time := 0.12, current_note := None\<rparr>,
          [Note_played ''A'' 0.12, Callback [PyStr ''A'']])"
    by (simp add: active_A_def init_def)
  have g': "\<not> truthy None" "0.08 - last_detection_time active_A < DROPOUT_TOLERANCE"
    "\<not> truthy (Some '''')" "0.1 - last_detection_time active_A < DROPOUT_TOLERANCE"
    using g by simp_all
  from a g' l n 1 2 3 show ?thesis by blast
qed

subsection \<open>Fields touched by a tick without a note\<close>

text \<open>
  Claim C10: a tick that carries no note while a note is active leaves
  \<open>note_start_time\<close> and \<open>last_detection_time\<close> as they were; the only field the
  tracker may change is \<open>current_note\<close>, which becomes \<open>None\<close> when the silence has
  reached \<open>SILENCE_THRESHOLD\<close> and keeps its value otherwise.
\<close>

theorem silence_tick_frame:
  assumes "current_note self \<noteq> None" and "\<not> truthy detected_note"
  shows "note_start_time (fst (process_audio_detect self detected_note now1 now))
           = note_start_time self
     \<and> last_detection_time (fst (process_audio_detect self detected_note now1 now))
           = last_detection_time self
     \<and> fst (process_audio_detect self detected_note now1 now) =
           self\<lparr>current_note :=
                  if now - last_detection_time self \<ge> SILENCE_THRESHOLD
                  then None else current_note self\<rparr>"
  using assms
  by (auto simp: process_audio_detect_def Let_def DROPOUT_TOLERANCE_def SILENCE_THRESHOLD_def)

theorem silence_tick_frame_witness:
  "current_note active_A \<noteq> None \<and> \<not> truthy None
   \<and> fst (process_audio_detect active_A None 0.5 0.5) = active_A\<lparr>current_note := None\<rparr>
   \<and> note_start_time (fst (process_audio_detect active_A None 0.5 0.5)) = 0
   \<and> last_detection_time (fst (process_audio_detect active_A None 0.5 0.5)) = 0.06"
proof -
  have a: "current_note active_A \<noteq> None" by (simp add: active_A_def)
  have n: "\<not> truthy None" by (simp add: truthy_def)
  from silence_tick_frame [OF a n, of "0.5" "0.5"]
  have "fst (process_audio_detect active_A None 0.5 0.5) = active_A\<lparr>current_note := None\<rparr>
   \<and> note_start_time (fst (process_audio_detect active_A None 0.5 0.5)) = 0
   \<and> last_detection_time (fst (process_audio_detect active_A None 0.5 0.5)) = 0.06"
    by (simp add: active_A_def init_def SILENCE_THRESHOLD_def)
  with a n show ?thesis by blast
qed

subsection \<open>The classifier\<close>

text \<open>
  Claim C8: \<^verbatim>\<open>frequency_to_note\<close> maps an absent frequency to \<open>None\<close>; a frequency
  \<open>f\<close> with \<open>low \<le> f \<le> high\<close> for an entry of \<open>NOTE_RANGES\<close> (both bounds
  included) to the note of that entry; and a frequency that lies in none of the ranges
  to \<open>None\<close>.
\<close>

theorem frequency_to_note_ranges:
  "frequency_to_note None = None
   \<and> (\<forall>n low high. (n, low, high) \<in> set NOTE_RANGES \<and> low \<le> f \<and> f \<le> high
        \<longrightarrow> frequency_to_note (Some f) = Some n)
   \<and> ((\<forall>(n, low, high) \<in> set NOTE_RANGES. \<not> (low \<le> f \<and> f \<le> high))
        \<longrightarrow> frequency_to_note (Some f) = None)"
  by (auto simp: frequency_to_note_def NOTE_RANGES_def)

theorem frequency_to_note_ranges_witness:
  "(''A'', 800, 881) \<in> set NOTE_RANGES
   \<and> frequency_to_note (Some 800) = Some ''A''
   \<and> frequency_to_note (Some 881) = Some ''A''
   \<and> list_all (\<lambda>(n, low, high). \<not> (low \<le> 795 \<and> 795 \<le> high)) NOTE_RANGES
   \<and> frequency_to_note (Some 795) = None"
proof -
  have m: "(''A'', 800, 881) \<in> set NOTE_RANGES"
    by (simp add: NOTE_RANGES_def)
  have g: "\<forall>(n, low, high) \<in> set NOTE_RANGES. \<not> (low \<le> 795 \<and> 795 \<le> high)"
    by (simp add: NOTE_RANGES_def)
  have b: "(800::real) \<le> 800 \<and> (800::real) \<le> 881" "(800::real) \<le> 881 \<and> (881::real) \<le> 881"
    by simp_all
  from frequency_to_note_ranges [of 800] m b(1)
  have 1: "frequency_to_note (Some 800) = Some ''A''" by blast
  from frequency_to_note_ranges [of 881] m b(2)
  have 2: "frequency_to_note (Some 881) = Some ''A''" by blast
  from frequency_to_note_ranges [of 795] g
  have 3: "frequency_to_note (Some 795) = None" by blast
  have g': "list_all (\<lambda>(n, low, high). \<not> (low \<le> 795 \<and> 795 \<le> high)) NOTE_RANGES"
    by (simp add: NOTE_RANGES_def)
  from m g' 1 2 3 show ?thesis by blast
qed

subsection \<open>The stabilizer\<close>

text \<open>
  Claim C7: let the estimates \<open>es\<close> and then \<open>e\<close> be fed to a recognizer whose
  buffer holds at most five readings.  The window is the last five readings, absent
  ones included, up to and including \<open>e\<close>.  If \<open>e\<close> is absent the output is absent,
  whatever the window holds.  If \<open>e\<close> is present and the window holds at least two
  present readings, the output is their median; with fewer than two, it is \<open>e\<close> itself.
  The value \<open>np_median\<close> computes for the present readings is their median in the
  sense of \<open>is_median\<close>, and no other value is.
\<close>

theorem stabilizer_output:
  assumes "length (freq_buffer self) \<le> 5"
  shows "last (snd (run_stabilize self (es @ [e]))) =
     (case e of
        None \<Rightarrow> None
      | Some f \<Rightarrow>
          (let present = List.map_filter (\<lambda>x. x) (last_five (freq_buffer self @ es @ [e]))
           in if length present \<ge> 2 then Some (np_median present) else Some f))
     \<and> (let present = List.map_filter (\<lambda>x. x) (last_five (freq_buffer self @ es @ [e]))
        in present \<noteq> [] \<longrightarrow>
             is_median present (np_median present)
             \<and> (\<forall>m. is_median present m \<longrightarrow> m = np_median present))"
proof -
  have "freq_buffer (fst (run_stabilize self es)) = last_five (freq_buffer self @ es)"
    using assms by (rule buffer_run)
  then have w: "deque_append 5 (freq_buffer (fst (run_stabilize self es))) e
                  = last_five (freq_buffer self @ es @ [e])"
    by (rule window_after_append)
  have out: "last (snd (run_stabilize self (es @ [e]))) =
     (case e of
        None \<Rightarrow> None
      | Some f \<Rightarrow>
          (let present = List.map_filter (\<lambda>x. x) (last_five (freq_buffer self @ es @ [e]))
           in if length present \<ge> 2 then Some (np_median present) else Some f))"
  proof (cases e)
    case None
    then show ?thesis by (simp add: run_stabilize_snoc Let_def stabilize_out)
  next
    case (Some f)
    with w show ?thesis by (simp add: run_stabilize_snoc Let_def stabilize_out)
  qed
  have med: "is_median present (np_median present)
             \<and> (\<forall>m. is_median present m \<longrightarrow> m = np_median present)"
    if "present \<noteq> []" for present
    using np_median_is_median [OF that] is_median_unique by blast
  from out med show ?thesis by (simp add: Let_def)
qed

theorem stabilizer_output_witness:
  "length (freq_buffer init) \<le> 5
   \<and> last (snd (run_stabilize init
        ([Some 1000, Some 1002, Some 1001, Some 1003] @ [Some 2500]))) = Some 1002
   \<and> is_median [1000, 1002, 1001, 1003, 2500] 1002
   \<and> last (snd (run_stabilize init
        ([Some 900, Some 1000, None, Some 1010, Some 1040] @ [Some 1020]))) = Some 1015
   \<and> is_median [1000, 1010, 1040, 1020] 1015
   \<and> last (snd (run_stabilize init
        ([Some 900, Some 1000, None, Some 1010, Some 2000, None, None] @ [None]))) = None
   \<and> last (snd (run_stabilize init ([None, None] @ [Some 1020]))) = Some 1020"
proof -
  have h: "length (freq_buffer init) \<le> 5" by (simp add: init_def)
  have s1: "sort [1000, 1002, 1001, 1003, 2500 :: real] = [1000, 1001, 1002, 1003, 2500]"
    by simp
  have s2: "sort [1000, 1010, 1040, 1020 :: real] = [1000, 1010, 1020, 1040]"
    by simp
  from stabilizer_output [OF h, of "[Some 1000, Some 1002, Some 1001, Some 1003]" "Some 2500"]
  have 1: "last (snd (run_stabilize init
        ([Some 1000, Some 1002, Some 1001, Some 1003] @ [Some 2500]))) = Some 1002
      \<and> is_median [1000, 1002, 1001, 1003, 2500] 1002"
    by (simp add: init_def last_five_def List.map_filter_def np_median_def Let_def s1)
  from stabilizer_output [OF h, of "[Some 900, Some 1000, None, Some 1010, Some 1040]" "Some 1020"]
  have 2: "last (snd (run_stabilize init
        ([Some 900, Some 1000, None, Some 1010, Some 1040] @ [Some 1020]))) = Some 1015
      \<and> is_median [1000, 1010, 1040, 1020] 1015"
    by (simp add: init_def last_five_def List.map_filter_def np_median_def Let_def s2)
  from stabilizer_output [OF h,
      of "[Some 900, Some 1000, None, Some 1010, Some 2000, None, None]" None]
  have 3: "last (snd (run_stabilize init
        ([Some 900, Some 1000, None, Some 1010, Some 2000, None, None] @ [None])))
       = None"
    by simp
  from stabilizer_output [OF h, of "[None, None]" "Some 1020"]
  have 4: "last (snd (run_stabilize init ([None, None] @ [Some 1020]))) = Some 1020"
    by (simp add: init_def last_five_def List.map_filter_def Let_def)
  from h 1 2 3 4 show ?thesis by blast
qed

end
